theory Spec2Isabelle
  imports Main
begin

section \<open>Strings\<close>

text \<open>
  Python strings are modelled as \<^typ>\<open>string\<close>. Header names are ASCII, so
  \<^verbatim>\<open>str.lower\<close> is modelled on the letters A to Z.
\<close>

definition lower_char :: "char \<Rightarrow> char" where
  "lower_char c =
     (let n = (of_char c :: nat) in if 65 \<le> n \<and> n \<le> 90 then char_of (n + 32) else c)"

definition str_lower :: "string \<Rightarrow> string" where
  "str_lower s = map lower_char s"

text \<open>\<^verbatim>\<open>s.startswith(p)\<close>.\<close>

fun startswith :: "string \<Rightarrow> string \<Rightarrow> bool" where
  "startswith s [] = True"
| "startswith [] (c # p) = False"
| "startswith (d # s) (c # p) = (d = c \<and> startswith s p)"

text \<open>\<^verbatim>\<open>sub in s\<close> on strings: \<open>sub\<close> occurs in \<open>s\<close> as a contiguous run.\<close>

fun str_contains :: "string \<Rightarrow> string \<Rightarrow> bool" where
  "str_contains sub [] = (sub = [])"
| "str_contains sub (c # s) = (startswith (c # s) sub \<or> str_contains sub s)"

section \<open>Response headers\<close>

text \<open>
  The headers of a response (\<^verbatim>\<open>werkzeug.datastructures.Headers\<close>) are an ordered
  list of name and value pairs, and names compare without regard to case.
  \<open>headers_lookup\<close> is \<^verbatim>\<open>__getitem__\<close> (the first pair of that name, \<open>None\<close> for
  KeyError), \<open>headers_get\<close> is \<^verbatim>\<open>get(key, default)\<close>, \<open>headers_getlist\<close> is
  \<^verbatim>\<open>getlist(key)\<close>, and \<open>headers_set\<close> is \<^verbatim>\<open>headers[key] = value\<close>: the first
  pair of that name is replaced where it stands and every later one is removed; when
  there is none the pair is appended.
\<close>

type_synonym header_list = "(string \<times> string) list"

fun headers_lookup :: "header_list \<Rightarrow> string \<Rightarrow> string option" where
  "headers_lookup [] key = None"
| "headers_lookup ((k, v) # hs) key =
     (if str_lower k = str_lower key then Some v else headers_lookup hs key)"

definition headers_get :: "header_list \<Rightarrow> string \<Rightarrow> string \<Rightarrow> string" where
  "headers_get hs key dflt = (case headers_lookup hs key of None \<Rightarrow> dflt | Some v \<Rightarrow> v)"

definition headers_getlist :: "header_list \<Rightarrow> string \<Rightarrow> string list" where
  "headers_getlist hs key = map snd (filter (\<lambda>t. str_lower (fst t) = str_lower key) hs)"

fun headers_set :: "header_list \<Rightarrow> string \<Rightarrow> string \<Rightarrow> header_list" where
  "headers_set [] key v = [(key, v)]"
| "headers_set ((k, old) # hs) key v =
     (if str_lower k = str_lower key
      then (key, v) # filter (\<lambda>t. str_lower (fst t) \<noteq> str_lower key) hs
      else (k, old) # headers_set hs key v)"

record response =
  status_code :: nat
  headers :: header_list
  data :: string

text \<open>
  What the program and the library read of a request: its method, the path of its URL
  (it begins with \<^verbatim>\<open>/\<close>) and its headers.
\<close>

record request =
  req_method :: string
  req_path :: string
  req_headers :: header_list

section \<open>Paths\<close>

text \<open>
  \<^verbatim>\<open>posixpath.isabs\<close> and \<^verbatim>\<open>posixpath.join\<close> for two arguments: an absolute
  second part discards the first; otherwise a \<^verbatim>\<open>/\<close> is inserted unless the first part
  is empty or already ends in one.
\<close>

definition os_path_isabs :: "string \<Rightarrow> bool" where
  "os_path_isabs s = startswith s ''/''"

definition endswith_sep :: "string \<Rightarrow> bool" where
  "endswith_sep s = (s \<noteq> [] \<and> last s = CHR ''/'')"

definition os_path_join :: "string \<Rightarrow> string \<Rightarrow> string" where
  "os_path_join a b =
     (if startswith b ''/'' then b
      else if a = [] \<or> endswith_sep a then a @ b
      else a @ ''/'' @ b)"

text \<open>\<^verbatim>\<open>path.split('/')\<close> and \<^verbatim>\<open>'/'.join(comps)\<close>.\<close>

fun split_sep :: "string \<Rightarrow> string list" where
  "split_sep [] = [[]]"
| "split_sep (c # s) =
     (if c = CHR ''/'' then [] # split_sep s
      else (case split_sep s of [] \<Rightarrow> [[c]] | w # ws \<Rightarrow> (c # w) # ws))"

fun join_sep :: "string list \<Rightarrow> string" where
  "join_sep [] = []"
| "join_sep [w] = w"
| "join_sep (w # v # ws) = w @ ''/'' @ join_sep (v # ws)"

text \<open>
  \<^verbatim>\<open>posixpath.normpath\<close>. The loop over the components keeps \<^verbatim>\<open>new_comps\<close> as the
  Python list it is: \<^verbatim>\<open>append\<close> adds at the end, \<^verbatim>\<open>pop\<close> removes the last element.
  \<open>initial_slashes\<close> is 0, 1 or 2.
\<close>

fun normpath_loop :: "nat \<Rightarrow> string list \<Rightarrow> string list \<Rightarrow> string list" where
  "normpath_loop initial_slashes [] new_comps = new_comps"
| "normpath_loop initial_slashes (part # comps) new_comps =
     (if part = [] \<or> part = ''.'' then normpath_loop initial_slashes comps new_comps
      else if part \<noteq> ''..'' \<or> (initial_slashes = 0 \<and> new_comps = [])
                \<or> (new_comps \<noteq> [] \<and> last new_comps = ''..'')
           then normpath_loop initial_slashes comps (new_comps @ [part])
      else if new_comps \<noteq> [] then normpath_loop initial_slashes comps (butlast new_comps)
      else normpath_loop initial_slashes comps new_comps)"

definition normpath :: "string \<Rightarrow> string" where
  "normpath path =
     (if path = [] then ''.''
      else
        let initial_slashes =
              (if startswith path ''/''
               then (if startswith path ''//'' \<and> \<not> startswith path ''///'' then 2 else 1)
               else (0::nat));
            comps = normpath_loop initial_slashes (split_sep path) [];
            joined = join_sep comps;
            result = (if initial_slashes \<noteq> 0
                      then replicate initial_slashes (CHR ''/'') @ joined else joined)
        in if result = [] then ''.'' else result)"

section \<open>The filesystem\<close>

text \<open>
  What \<^verbatim>\<open>os.stat\<close> finds at a path: nothing, a directory, or a regular file with its
  bytes. \<^verbatim>\<open>os.path.exists\<close> and \<^verbatim>\<open>os.path.isfile\<close> are the two tests of
  \<^verbatim>\<open>genericpath\<close>. The environment also carries what the library computes from tables
  and file metadata outside this program: the content type inferred from a file name,
  the further headers \<^verbatim>\<open>send_file\<close> derives from the file, the body of an error
  page, what \<^verbatim>\<open>Response.make_conditional\<close> makes of the response to a request with a
  range or a precondition, and the framework's own answer to a request that reaches no
  view function.
\<close>

datatype stat_result = Directory | RegularFile string

record environment =
  os_stat :: "string \<Rightarrow> stat_result option"
  content_type_of :: "string \<Rightarrow> string"
  file_headers :: "string \<Rightarrow> header_list"
  error_page :: "nat \<Rightarrow> string"
  make_conditional :: "request \<Rightarrow> string \<Rightarrow> response \<Rightarrow> response"
  framework_response :: "request \<Rightarrow> response"

definition os_path_exists :: "environment \<Rightarrow> string \<Rightarrow> bool" where
  "os_path_exists env path = (os_stat env path \<noteq> None)"

definition os_path_isfile :: "environment \<Rightarrow> string \<Rightarrow> bool" where
  "os_path_isfile env path =
     (case os_stat env path of Some (RegularFile bytes) \<Rightarrow> True | _ \<Rightarrow> False)"

text \<open>
  A directory tree without symbolic links, and the way the operating system resolves a
  path in it: component by component from the root (absolute path) or from the working
  directory, each step taken from a directory; an empty component and \<^verbatim>\<open>.\<close> stay,
  \<^verbatim>\<open>..\<close> goes to the parent (the root is its own parent), a name goes to that entry.
  The empty path resolves to nothing.
\<close>

datatype fsnode = File string | Dir "(string \<times> fsnode) list"

fun node_at :: "fsnode \<Rightarrow> string list \<Rightarrow> fsnode option" where
  "node_at n [] = Some n"
| "node_at (File bytes) (c # cs) = None"
| "node_at (Dir entries) (c # cs) =
     (case map_of entries c of None \<Rightarrow> None | Some m \<Rightarrow> node_at m cs)"

fun is_dir :: "fsnode option \<Rightarrow> bool" where
  "is_dir (Some (Dir entries)) = True"
| "is_dir other = False"

fun walk :: "fsnode \<Rightarrow> string list \<Rightarrow> string list \<Rightarrow> string list option" where
  "walk root cur [] = Some cur"
| "walk root cur (c # cs) =
     (if \<not> is_dir (node_at root cur) then None
      else if c = [] \<or> c = ''.'' then walk root cur cs
      else if c = ''..'' then walk root (butlast cur) cs
      else if node_at root (cur @ [c]) = None then None
      else walk root (cur @ [c]) cs)"

definition resolve :: "fsnode \<Rightarrow> string list \<Rightarrow> string \<Rightarrow> string list option" where
  "resolve root cwd path =
     (if path = [] then None
      else walk root (if startswith path ''/'' then [] else cwd) (split_sep path))"

definition tree_stat :: "fsnode \<Rightarrow> string list \<Rightarrow> string \<Rightarrow> stat_result option" where
  "tree_stat root cwd path =
     (case resolve root cwd path of
        None \<Rightarrow> None
      | Some loc \<Rightarrow>
          (case node_at root loc of
             None \<Rightarrow> None
           | Some (File bytes) \<Rightarrow> Some (RegularFile bytes)
           | Some (Dir entries) \<Rightarrow> Some Directory))"

section \<open>The library calls of the request handler\<close>

text \<open>
  The application object: \<^verbatim>\<open>Flask(__name__, static_folder='dist')\<close>. Its
  \<^verbatim>\<open>root_path\<close> is the directory of server.py, and the property
  \<^verbatim>\<open>app.static_folder\<close> is \<^verbatim>\<open>os.path.join(root_path, 'dist')\<close>.
\<close>

record flask_app =
  root_path :: string

definition static_folder :: "flask_app \<Rightarrow> string" where
  "static_folder app = os_path_join (root_path app) ''dist''"

text \<open>
  What a view can raise: \<^verbatim>\<open>werkzeug.exceptions.NotFound\<close>, which the framework turns
  into a 404 response, and an \<^verbatim>\<open>OSError\<close> from opening a file, which no handler
  catches and the framework answers with 500.
\<close>

datatype view_error = NotFound | UnhandledOSError

text \<open>
  \<^verbatim>\<open>werkzeug.security.safe_join(directory, filename)\<close> on a POSIX system (no alternative
  separators): the untrusted name is normalised, and refused when the result is absolute,
  is \<^verbatim>\<open>..\<close> or starts with \<^verbatim>\<open>../\<close>.
\<close>

definition safe_join :: "string \<Rightarrow> string \<Rightarrow> string option" where
  "safe_join directory filename =
     (let directory = (if directory = [] then ''.'' else directory);
          filename = (if filename \<noteq> [] then normpath filename else filename)
      in if os_path_isabs filename \<or> startswith filename ''/''
            \<or> filename = ''..'' \<or> startswith filename ''../''
         then None
         else Some (os_path_join directory filename))"

text \<open>
  \<^verbatim>\<open>send_file(path)\<close>: the path is taken relative to the application's root path and
  the file is opened (an OSError when it is not there or is a directory). The response is
  200 with the file's bytes, the headers derived from the file and the Content-Type
  inferred from its name. The call is conditional by default: when the request carries
  one of the headers that \<^verbatim>\<open>Response.make_conditional\<close> consults, that method decides
  what becomes of the response (206 with a part of the bytes, 304, 412 or 416).
\<close>

definition conditional_headers :: "string list" where
  "conditional_headers =
     [''Range'', ''If-Range'', ''If-Modified-Since'', ''If-None-Match'', ''If-Match'']"

definition is_conditional :: "request \<Rightarrow> bool" where
  "is_conditional req =
     list_ex (\<lambda>name. headers_lookup (req_headers req) name \<noteq> None) conditional_headers"

definition send_file ::
    "flask_app \<Rightarrow> environment \<Rightarrow> request \<Rightarrow> string \<Rightarrow> view_error + response" where
  "send_file app env req path_or_file =
     (let path = os_path_join (root_path app) path_or_file
      in case os_stat env path of
           Some (RegularFile bytes) \<Rightarrow>
             (let rv = \<lparr>status_code = 200,
                        headers = headers_set (file_headers env path) ''Content-Type''
                                    (content_type_of env path),
                        data = bytes\<rparr>
              in Inr (if is_conditional req then make_conditional env req path rv else rv))
         | _ \<Rightarrow> Inl UnhandledOSError)"

text \<open>
  \<^verbatim>\<open>send_from_directory(directory, path)\<close>: NotFound when \<open>safe_join\<close> refuses the
  path or when the joined path is not a regular file, otherwise \<open>send_file\<close>.
\<close>

definition send_from_directory ::
    "flask_app \<Rightarrow> environment \<Rightarrow> request \<Rightarrow> string \<Rightarrow> string \<Rightarrow> view_error + response" where
  "send_from_directory app env req directory path =
     (case safe_join directory path of
        None \<Rightarrow> Inl NotFound
      | Some path_str \<Rightarrow>
          (let path_str = os_path_join (root_path app) path_str
           in if \<not> os_path_isfile env path_str then Inl NotFound
              else send_file app env req path_str))"

text \<open>
  \<^verbatim>\<open>app.send_static_file(filename)\<close>, the view of the static route, is
  \<^verbatim>\<open>send_from_directory(app.static_folder, filename)\<close>.
\<close>

definition send_static_file ::
    "flask_app \<Rightarrow> environment \<Rightarrow> request \<Rightarrow> string \<Rightarrow> view_error + response" where
  "send_static_file app env req filename =
     send_from_directory app env req (static_folder app) filename"

section \<open>server.py: the request handler\<close>

text \<open>
  \<^verbatim>\<open>serve(path)\<close>, bound to \<^verbatim>\<open>/\<close> with \<^verbatim>\<open>path = ''\<close> and to
  \<^verbatim>\<open>/<path:path>\<close>. \<open>serve_guard\<close> is the condition of its \<^verbatim>\<open>if\<close>. The two
  library calls read the request that is being answered.
\<close>

definition serve_guard :: "flask_app \<Rightarrow> environment \<Rightarrow> string \<Rightarrow> bool" where
  "serve_guard app env path =
     (path \<noteq> [] \<and> os_path_exists env (os_path_join (static_folder app) path))"

definition serve ::
    "flask_app \<Rightarrow> environment \<Rightarrow> request \<Rightarrow> string \<Rightarrow> view_error + response" where
  "serve app env req path =
     (if serve_guard app env path
      then send_from_directory app env req (static_folder app) path
      else send_file app env req (os_path_join (static_folder app) ''index.html''))"

section \<open>server.py: the URL map\<close>

text \<open>
  Three rules are registered: \<^verbatim>\<open>/\<close> and \<^verbatim>\<open>/<path:path>\<close> for \<open>serve\<close> by its two
  decorators, and, because the application is made with \<^verbatim>\<open>static_folder='dist'\<close> and
  no \<^verbatim>\<open>static_url_path\<close>, the rule \<^verbatim>\<open>/dist/<path:filename>\<close> for the framework's
  \<^verbatim>\<open>send_static_file\<close>. A path converter takes one character or more, and of two
  rules that match, the one with the longer fixed part wins: a URL under \<^verbatim>\<open>/dist/\<close>
  goes to the static view and never to \<open>serve\<close>. A URL with a doubled slash is left to
  the router, which may redirect to the URL with the slashes merged.
\<close>

datatype url_match = ServeView string | StaticView string | RouterAnswers

definition match_url :: "string \<Rightarrow> url_match" where
  "match_url url =
     (if \<not> startswith url ''/'' \<or> str_contains ''//'' url then RouterAnswers
      else if url = ''/'' then ServeView []
      else if startswith url ''/dist/'' \<and> url \<noteq> ''/dist/'' then StaticView (drop 6 url)
      else ServeView (drop 1 url))"

text \<open>
  The rules accept GET and HEAD. A request with another method (the framework answers
  OPTIONS by itself and the others with 405) or with a URL that the router answers
  reaches no view function; the framework's own response stands for it.
\<close>

definition dispatch_request ::
    "flask_app \<Rightarrow> environment \<Rightarrow> request \<Rightarrow> view_error + response" where
  "dispatch_request app env req =
     (if req_method req \<noteq> ''GET'' \<and> req_method req \<noteq> ''HEAD''
      then Inr (framework_response env req)
      else case match_url (req_path req) of
             ServeView path \<Rightarrow> serve app env req path
           | StaticView filename \<Rightarrow> send_static_file app env req filename
           | RouterAnswers \<Rightarrow> Inr (framework_response env req))"

section \<open>server.py: the after-request hook\<close>

text \<open>
  \<^verbatim>\<open>add_header(response)\<close>, registered with \<^verbatim>\<open>@app.after_request\<close>. The four
  assignments are made in the order of the source; the first reads the Content-Type of
  the response with the default \<^verbatim>\<open>''\<close>.
\<close>

definition add_header :: "response \<Rightarrow> response" where
  "add_header response =
     (let h1 = headers_set (headers response) ''Cache-Control''
                 (if str_contains ''assets'' (headers_get (headers response) ''Content-Type'' [])
                  then ''public, max-age=31536000'' else ''no-cache'');
          h2 = headers_set h1 ''X-Content-Type-Options'' ''nosniff'';
          h3 = headers_set h2 ''X-Frame-Options'' ''DENY'';
          h4 = headers_set h3 ''X-XSS-Protection'' ''1; mode=block''
      in response\<lparr>headers := h4\<rparr>)"

text \<open>
  How the framework answers a request: the view's result, or the error response
  standing for what it raised (404 for NotFound, 500 for an exception nobody handles;
  both are HTML pages), is passed through the after-request hook.
  \<open>handle_request\<close> is the answer to a request for which the URL map calls
  \<open>serve\<close> with \<open>path\<close>, \<open>full_dispatch_request\<close> the answer to any request. The
  hook that \<^verbatim>\<open>CORS(app)\<close> installs runs after \<open>add_header\<close> and is not part of this
  model.
\<close>

definition error_response :: "environment \<Rightarrow> nat \<Rightarrow> response" where
  "error_response env code =
     \<lparr>status_code = code,
      headers = [(''Content-Type'', ''text/html; charset=utf-8'')],
      data = error_page env code\<rparr>"

definition finalize_request :: "environment \<Rightarrow> view_error + response \<Rightarrow> response" where
  "finalize_request env rv =
     (case rv of
        Inr response \<Rightarrow> response
      | Inl NotFound \<Rightarrow> error_response env 404
      | Inl UnhandledOSError \<Rightarrow> error_response env 500)"

definition handle_request ::
    "flask_app \<Rightarrow> environment \<Rightarrow> request \<Rightarrow> string \<Rightarrow> response" where
  "handle_request app env req path =
     add_header (finalize_request env (serve app env req path))"

definition full_dispatch_request :: "flask_app \<Rightarrow> environment \<Rightarrow> request \<Rightarrow> response" where
  "full_dispatch_request app env req =
     add_header (finalize_request env (dispatch_request app env req))"

text \<open>
  The body that is sent (\<^verbatim>\<open>Response.get_app_iter\<close>): none in answer to HEAD and
  none with a status that has no body.
\<close>

definition response_body :: "request \<Rightarrow> response \<Rightarrow> string" where
  "response_body req r =
     (if req_method req = ''HEAD'' \<or> (100 \<le> status_code r \<and> status_code r < 200)
         \<or> status_code r = 204 \<or> status_code r = 304
      then [] else data r)"

section \<open>The two scripts as processes\<close>

text \<open>
  What a script does to the outside is a trace of events in the order they happen: a
  line printed, a child process run to its end with \<^verbatim>\<open>subprocess.run\<close>, a shell command
  run to its end with \<^verbatim>\<open>os.system\<close>, the blocking call \<^verbatim>\<open>app.run\<close>. A statement either
  completes with a value or raises; a raise skips the statements after it.
\<close>

datatype py_exception = KeyboardInterrupt | SystemExit int | OtherException

datatype event =
    Print string
  | SubprocessRun "string list"
  | OsSystem string
  | AppRun string nat bool bool

type_synonym 'a stmt = "event list \<Rightarrow> (py_exception + 'a) \<times> event list"

definition py_print :: "string \<Rightarrow> unit stmt" where
  "py_print s = (\<lambda>trace. (Inr (), trace @ [Print s]))"

definition sys_exit :: "int \<Rightarrow> unit stmt" where
  "sys_exit n = (\<lambda>trace. (Inl (SystemExit n), trace))"

definition and_then :: "'a stmt \<Rightarrow> ('a \<Rightarrow> 'b stmt) \<Rightarrow> 'b stmt" where
  "and_then s f =
     (\<lambda>trace. case s trace of
                 (Inl e, trace') \<Rightarrow> (Inl e, trace')
               | (Inr x, trace') \<Rightarrow> f x trace')"

text \<open>A block of statements whose values are discarded.\<close>

fun block :: "unit stmt list \<Rightarrow> unit stmt" where
  "block [] = (\<lambda>trace. (Inr (), trace))"
| "block (s # ss) = and_then s (\<lambda>u. block ss)"

definition discard :: "'a stmt \<Rightarrow> unit stmt" where
  "discard s = and_then s (\<lambda>x trace. (Inr (), trace))"

text \<open>\<^verbatim>\<open>try: body except KeyboardInterrupt: handler\<close>.\<close>

definition try_except_KeyboardInterrupt :: "unit stmt \<Rightarrow> unit stmt \<Rightarrow> unit stmt" where
  "try_except_KeyboardInterrupt body handler =
     (\<lambda>trace. case body trace of
                 (Inl KeyboardInterrupt, trace') \<Rightarrow> handler trace'
               | other \<Rightarrow> other)"

text \<open>
  What ends the wait of a blocking call is decided outside the program: what it waits
  for comes to its end, or an exception is raised in it (KeyboardInterrupt when the
  operator interrupts the process while it waits).
\<close>

datatype 'a call_outcome = Returns 'a | Raises py_exception

text \<open>
  \<^verbatim>\<open>subprocess.run(args)\<close> without \<^verbatim>\<open>check=True\<close> returns the child's return code
  inside a CompletedProcess, whatever the code is.
\<close>

definition subprocess_run :: "int call_outcome \<Rightarrow> string list \<Rightarrow> int stmt" where
  "subprocess_run outcome args =
     (\<lambda>trace. (case outcome of Returns returncode \<Rightarrow> Inr returncode | Raises e \<Rightarrow> Inl e,
               trace @ [SubprocessRun args]))"

text \<open>\<^verbatim>\<open>os.system(command)\<close> returns the exit status of the command once it has ended.\<close>

definition os_system :: "int \<Rightarrow> string \<Rightarrow> int stmt" where
  "os_system exit_status command = (\<lambda>trace. (Inr exit_status, trace @ [OsSystem command]))"

text \<open>
  \<^verbatim>\<open>app.run\<close> blocks in the serving loop of the development server. The loop catches
  KeyboardInterrupt, closes the socket and returns, so an operator interrupt makes
  \<^verbatim>\<open>app.run\<close> return; any other exception leaves it.
\<close>

definition app_run :: "unit call_outcome \<Rightarrow> string \<Rightarrow> nat \<Rightarrow> bool \<Rightarrow> bool \<Rightarrow> unit stmt" where
  "app_run outcome host port debug threaded =
     (\<lambda>trace. (case outcome of
                  Returns u \<Rightarrow> Inr ()
                | Raises e \<Rightarrow> (if e = KeyboardInterrupt then Inr () else Inl e),
               trace @ [AppRun host port debug threaded]))"

text \<open>
  How the interpreter ends the process: exit status 0 when the script runs to its end,
  the argument of \<^verbatim>\<open>sys.exit\<close> when SystemExit reaches the top, and otherwise an
  uncaught exception (a traceback and a status that is not 0).
\<close>

datatype process_end = Exit int | Uncaught py_exception

fun interpreter_end :: "py_exception + unit \<Rightarrow> process_end" where
  "interpreter_end (Inr u) = Exit 0"
| "interpreter_end (Inl (SystemExit n)) = Exit n"
| "interpreter_end (Inl e) = Uncaught e"

definition run_script :: "unit stmt \<Rightarrow> process_end \<times> event list" where
  "run_script script = (case script [] of (r, trace) \<Rightarrow> (interpreter_end r, trace))"

subsection \<open>The printed texts\<close>

text \<open>
  The arguments of the \<^verbatim>\<open>print\<close> calls, as the bytes of their UTF-8 encoding; the
  pictographs are written by their bytes.
\<close>

definition newline :: string where
  "newline = [CHR 0x0A]"

definition rocket :: string where
  "rocket = [CHR 0xF0, CHR 0x9F, CHR 0x9A, CHR 0x80]"

definition clipboard :: string where
  "clipboard = [CHR 0xF0, CHR 0x9F, CHR 0x93, CHR 0x8B]"

definition arrow :: string where
  "arrow = [CHR 0xE2, CHR 0x9E, CHR 0x9C]"

definition light_bulb :: string where
  "light_bulb = [CHR 0xF0, CHR 0x9F, CHR 0x92, CHR 0xA1]"

definition check_mark :: string where
  "check_mark = [CHR 0xE2, CHR 0x9C, CHR 0x85]"

definition package :: string where
  "package = [CHR 0xF0, CHR 0x9F, CHR 0x93, CHR 0xA6]"

definition globe :: string where
  "globe = [CHR 0xF0, CHR 0x9F, CHR 0x8C, CHR 0x90]"

definition rule60 :: string where
  "rule60 = replicate 60 (CHR ''='')"

definition server_stopped_message :: string where
  "server_stopped_message = newline @ newline @ check_mark @ '' Server stopped''"

subsection \<open>Testing.py\<close>

definition testing_main :: "int call_outcome \<Rightarrow> unit stmt" where
  "testing_main child =
     block
      [py_print (newline @ rule60),
       py_print (rocket @ '' IGNITEX TEST SERVER''),
       py_print rule60,
       py_print (newline @ clipboard @ '' INSTRUCTIONS:''),
       py_print ''   1. Server will start in 3 seconds'',
       py_print (''   2. Look for: '' @ arrow @ ''  Local:   http://localhost:8080/''),
       py_print ''   3. COPY that URL'',
       py_print ''   4. PASTE it in your browser'',
       py_print (newline @ light_bulb @ '' Press CTRL+C to stop server''),
       py_print (rule60 @ newline),
       try_except_KeyboardInterrupt
         (discard (subprocess_run child [''npm'', ''run'', ''dev'']))
         (block [py_print server_stopped_message, sys_exit 0])]"

subsection \<open>server.py, run as a script\<close>

definition server_main :: "int \<Rightarrow> unit call_outcome \<Rightarrow> unit stmt" where
  "server_main build_status listener =
     block
      [py_print (newline @ rocket @ '' IgniteX Test Server Starting...''),
       py_print (package @ '' Building production bundle first...''),
       discard (os_system build_status ''npm run build''),
       py_print (newline @ check_mark @ '' Build complete!''),
       py_print (globe @ '' Server running at: http://localhost:5000''),
       py_print (globe @ '' Network access: http://0.0.0.0:5000''),
       py_print (newline @ ''Press CTRL+C to stop'' @ newline),
       app_run listener ''0.0.0.0'' 5000 False True]"

section \<open>A concrete deployment\<close>

text \<open>
  The scenario of the specification, a little enlarged: server.py lies in \<^verbatim>\<open>/app\<close>,
  the build has put \<^verbatim>\<open>index.html\<close>, \<^verbatim>\<open>style.css\<close> and a directory
  \<^verbatim>\<open>assets\<close> with one script into \<^verbatim>\<open>/app/dist\<close>, and the working directory is
  \<^verbatim>\<open>/app\<close>. In this environment every conditional request is answered with 304 and
  the framework's own answer is a 405 page.
\<close>

definition example_tree :: fsnode where
  "example_tree =
     Dir [(''app'',
           Dir [(''server.py'', File ''from flask import Flask''),
                (''dist'',
                 Dir [(''index.html'', File ''<div id=root></div>''),
                      (''style.css'', File ''body { margin: 0 }''),
                      (''assets'', Dir [(''app.js'', File ''render()'')])])])]"

definition example_content_type :: "string \<Rightarrow> string" where
  "example_content_type path =
     (if str_contains ''.css'' path then ''text/css; charset=utf-8''
      else if str_contains ''.html'' path then ''text/html; charset=utf-8''
      else if str_contains ''.js'' path then ''text/javascript; charset=utf-8''
      else ''application/octet-stream'')"

definition example_env :: environment where
  "example_env =
     \<lparr>os_stat = tree_stat example_tree [''app''],
      content_type_of = example_content_type,
      file_headers = (\<lambda>path. [(''Cache-Control'', ''no-cache''), (''ETag'', ''abc'')]),
      error_page = (\<lambda>code. ''<h1>error</h1>''),
      make_conditional = (\<lambda>req path rv. rv\<lparr>status_code := 304, data := []\<rparr>),
      framework_response =
        (\<lambda>req. \<lparr>status_code = 405,
                headers = [(''Content-Type'', ''text/html; charset=utf-8'')],
                data = ''<h1>error</h1>''\<rparr>)\<rparr>"

definition example_app :: flask_app where
  "example_app = \<lparr>root_path = ''/app''\<rparr>"

text \<open>A GET request for a URL, with no header but Host.\<close>

definition example_request :: "string \<Rightarrow> request" where
  "example_request url =
     \<lparr>req_method = ''GET'', req_path = url, req_headers = [(''Host'', ''localhost:5000'')]\<rparr>"

section \<open>Properties of strings and headers\<close>

lemma startswith_iff: "startswith s p \<longleftrightarrow> (\<exists>t. s = p @ t)"
  by (induction s p rule: startswith.induct) auto

lemma str_contains_iff: "str_contains sub s \<longleftrightarrow> (\<exists>pre post. s = pre @ sub @ post)"
proof (induction s)
  case Nil
  then show ?case by auto
next
  case (Cons c s)
  show ?case
  proof
    assume "str_contains sub (c # s)"
    then consider "startswith (c # s) sub" | "str_contains sub s" by auto
    then show "\<exists>pre post. c # s = pre @ sub @ post"
    proof cases
      case 1
      then obtain t where "c # s = sub @ t" unfolding startswith_iff by blast
      then have "c # s = [] @ sub @ t" by simp
      then show ?thesis by blast
    next
      case 2
      then obtain pre post where "s = pre @ sub @ post" using Cons.IH by blast
      then have "c # s = (c # pre) @ sub @ post" by simp
      then show ?thesis by blast
    qed
  next
    assume "\<exists>pre post. c # s = pre @ sub @ post"
    then obtain pre post where eq: "c # s = pre @ sub @ post" by blast
    show "str_contains sub (c # s)"
    proof (cases pre)
      case Nil
      with eq have "startswith (c # s) sub" unfolding startswith_iff by auto
      then show ?thesis by simp
    next
      case (Cons d pre')
      with eq have "s = pre' @ sub @ post" by simp
      then have "str_contains sub s" using Cons.IH by blast
      then show ?thesis by simp
    qed
  qed
qed

lemma getlist_set_same: "headers_getlist (headers_set hs key v) key = [v]"
  by (induction hs key v rule: headers_set.induct)
     (auto simp: headers_getlist_def filter_empty_conv)

lemma getlist_set_other:
  "str_lower k \<noteq> str_lower key \<Longrightarrow>
   headers_getlist (headers_set hs key v) k = headers_getlist hs k"
proof (induction hs key v rule: headers_set.induct)
  case (1 key v)
  then show ?case by (simp add: headers_getlist_def)
next
  case (2 k' old hs key v)
  have "filter (\<lambda>t. str_lower (fst t) = str_lower k)
          (filter (\<lambda>t. str_lower (fst t) \<noteq> str_lower key) hs)
        = filter (\<lambda>t. str_lower (fst t) = str_lower k) hs"
    using "2.prems" by (induction hs) auto
  with 2 show ?case by (auto simp: headers_getlist_def)
qed

lemma lookup_set_same: "headers_lookup (headers_set hs key v) key = Some v"
  by (induction hs key v rule: headers_set.induct) auto

lemma lookup_set_other:
  "str_lower k \<noteq> str_lower key \<Longrightarrow>
   headers_lookup (headers_set hs key v) k = headers_lookup hs k"
proof (induction hs key v rule: headers_set.induct)
  case (1 key v)
  then show ?case by simp
next
  case (2 k' old hs key v)
  have "headers_lookup (filter (\<lambda>t. str_lower (fst t) \<noteq> str_lower key) hs) k
        = headers_lookup hs k"
    using "2.prems" by (induction hs) auto
  with 2 show ?case by auto
qed

lemma header_names_distinct:
  "str_lower ''Content-Type'' \<noteq> str_lower ''Cache-Control''"
  "str_lower ''Content-Type'' \<noteq> str_lower ''X-Content-Type-Options''"
  "str_lower ''Content-Type'' \<noteq> str_lower ''X-Frame-Options''"
  "str_lower ''Content-Type'' \<noteq> str_lower ''X-XSS-Protection''"
  "str_lower ''Cache-Control'' \<noteq> str_lower ''X-Content-Type-Options''"
  "str_lower ''Cache-Control'' \<noteq> str_lower ''X-Frame-Options''"
  "str_lower ''Cache-Control'' \<noteq> str_lower ''X-XSS-Protection''"
  "str_lower ''X-Content-Type-Options'' \<noteq> str_lower ''X-Frame-Options''"
  "str_lower ''X-Content-Type-Options'' \<noteq> str_lower ''X-XSS-Protection''"
  "str_lower ''X-Frame-Options'' \<noteq> str_lower ''X-XSS-Protection''"
  by (simp_all add: str_lower_def lower_char_def)

lemma get_set_other:
  "str_lower k \<noteq> str_lower key \<Longrightarrow>
   headers_get (headers_set hs key v) k d = headers_get hs k d"
  by (simp add: headers_get_def lookup_set_other)

lemma add_header_status [simp]: "status_code (add_header r) = status_code r"
  by (simp add: add_header_def Let_def)

lemma add_header_data [simp]: "data (add_header r) = data r"
  by (simp add: add_header_def Let_def)

lemma add_header_content_type:
  "headers_get (headers (add_header r)) ''Content-Type'' d = headers_get (headers r) ''Content-Type'' d"
  by (simp add: add_header_def Let_def get_set_other header_names_distinct)

lemma add_header_cache_control:
  "headers_getlist (headers (add_header r)) ''Cache-Control'' =
     [if str_contains ''assets'' (headers_get (headers r) ''Content-Type'' [])
      then ''public, max-age=31536000'' else ''no-cache'']"
  by (simp add: add_header_def Let_def getlist_set_other getlist_set_same
        header_names_distinct header_names_distinct[symmetric])

lemma add_header_nosniff:
  "headers_getlist (headers (add_header r)) ''X-Content-Type-Options'' = [''nosniff'']"
  by (simp add: add_header_def Let_def getlist_set_other getlist_set_same
        header_names_distinct header_names_distinct[symmetric])

lemma add_header_frame_options:
  "headers_getlist (headers (add_header r)) ''X-Frame-Options'' = [''DENY'']"
  by (simp add: add_header_def Let_def getlist_set_other getlist_set_same
        header_names_distinct header_names_distinct[symmetric])

lemma add_header_xss:
  "headers_getlist (headers (add_header r)) ''X-XSS-Protection'' = [''1; mode=block'']"
  by (simp add: add_header_def Let_def getlist_set_other getlist_set_same
        header_names_distinct header_names_distinct[symmetric])

section \<open>The response header policy\<close>

text \<open>
  Claim C3. On every response that leaves the after-request hook, whether an arbitrary
  response \<open>r\<close> given to \<open>add_header\<close> or the server's answer to a request, there
  is exactly one Cache-Control header; its value is \<^verbatim>\<open>public, max-age=31536000\<close> when
  the Content-Type of that response contains \<^verbatim>\<open>assets\<close> and \<^verbatim>\<open>no-cache\<close>
  otherwise. The value is a function of the Content-Type string alone: the request path
  does not occur in it.
\<close>

theorem cache_control_follows_content_type:
  "headers_getlist (headers (add_header r)) ''Cache-Control'' =
     [if str_contains ''assets'' (headers_get (headers (add_header r)) ''Content-Type'' [])
      then ''public, max-age=31536000'' else ''no-cache'']
   \<and> headers_getlist (headers (handle_request app env req path)) ''Cache-Control'' =
     [if str_contains ''assets''
           (headers_get (headers (handle_request app env req path)) ''Content-Type'' [])
      then ''public, max-age=31536000'' else ''no-cache'']
   \<and> headers_getlist (headers (full_dispatch_request app env req)) ''Cache-Control'' =
     [if str_contains ''assets''
           (headers_get (headers (full_dispatch_request app env req)) ''Content-Type'' [])
      then ''public, max-age=31536000'' else ''no-cache'']"
  unfolding handle_request_def full_dispatch_request_def add_header_content_type
  by (simp only: add_header_cache_control simp_thms)

theorem cache_control_follows_content_type_witness:
  "headers_getlist
     (headers (add_header \<lparr>status_code = 200,
                            headers = [(''content-type'', ''application/x-assets-bundle''),
                                       (''cache-control'', ''private'')],
                            data = ''payload''\<rparr>)) ''Cache-Control''
     = [''public, max-age=31536000'']
   \<and> headers_getlist
        (headers (handle_request example_app example_env
                    (example_request ''/assets/app.js'') ''assets/app.js''))
        ''Cache-Control'' = [''no-cache'']"
proof -
  let ?r = "\<lparr>status_code = 200,
             headers = [(''content-type'', ''application/x-assets-bundle''),
                        (''cache-control'', ''private'')],
             data = ''payload''\<rparr>"
  let ?req = "example_request ''/assets/app.js''"
  have ct1: "headers_get (headers (add_header ?r)) ''Content-Type'' []
               = ''application/x-assets-bundle''"
    by code_simp
  have in1: "str_contains ''assets'' ''application/x-assets-bundle''"
    by code_simp
  have ct2: "headers_get
               (headers (handle_request example_app example_env ?req ''assets/app.js''))
               ''Content-Type'' [] = ''text/javascript; charset=utf-8''"
    by code_simp
  have in2: "\<not> str_contains ''assets'' ''text/javascript; charset=utf-8''"
    by code_simp
  note w = cache_control_follows_content_type
             [where r = ?r and app = example_app and env = example_env and req = ?req
                and path = "''assets/app.js''"]
  have one: "headers_getlist (headers (add_header ?r)) ''Cache-Control''
               = [''public, max-age=31536000'']"
    using conjunct1 [OF w] unfolding ct1 using in1 by simp
  have two: "headers_getlist
               (headers (handle_request example_app example_env ?req ''assets/app.js''))
               ''Cache-Control'' = [''no-cache'']"
    using conjunct1 [OF conjunct2 [OF w]] unfolding ct2 using in2 by simp
  from one two show ?thesis by (rule conjI)
qed

text \<open>
  Claim C4. Whatever the application, the filesystem and the request are, and so
  whichever branch of the handler answered (a file, the entry document, a 404 or a 500
  error page), the response carries the four headers: one Cache-Control with one of
  its two values, and X-Content-Type-Options, X-Frame-Options and X-XSS-Protection
  with their fixed values. The same holds of the answer to a request that does not
  reach the handler, and of any response \<open>r\<close> whatever that the framework passes
  through the hook.
\<close>

theorem every_response_has_fixed_headers:
  "headers_getlist (headers (handle_request app env req path)) ''Cache-Control''
     \<in> {[''public, max-age=31536000''], [''no-cache'']}
   \<and> headers_getlist (headers (handle_request app env req path)) ''X-Content-Type-Options''
       = [''nosniff'']
   \<and> headers_getlist (headers (handle_request app env req path)) ''X-Frame-Options''
       = [''DENY'']
   \<and> headers_getlist (headers (handle_request app env req path)) ''X-XSS-Protection''
       = [''1; mode=block'']
   \<and> headers_getlist (headers (add_header r)) ''Cache-Control''
       \<in> {[''public, max-age=31536000''], [''no-cache'']}
   \<and> headers_getlist (headers (add_header r)) ''X-Content-Type-Options'' = [''nosniff'']
   \<and> headers_getlist (headers (add_header r)) ''X-Frame-Options'' = [''DENY'']
   \<and> headers_getlist (headers (add_header r)) ''X-XSS-Protection'' = [''1; mode=block'']
   \<and> headers_getlist (headers (full_dispatch_request app env req)) ''Cache-Control''
       \<in> {[''public, max-age=31536000''], [''no-cache'']}
   \<and> headers_getlist (headers (full_dispatch_request app env req)) ''X-Content-Type-Options''
       = [''nosniff'']
   \<and> headers_getlist (headers (full_dispatch_request app env req)) ''X-Frame-Options''
       = [''DENY'']
   \<and> headers_getlist (headers (full_dispatch_request app env req)) ''X-XSS-Protection''
       = [''1; mode=block'']"
  unfolding handle_request_def full_dispatch_request_def
  by (simp add: add_header_cache_control add_header_nosniff add_header_frame_options
        add_header_xss)

theorem every_response_has_fixed_headers_witness:
  "status_code (handle_request example_app example_env (example_request ''/assets'') ''assets'')
     = 404
   \<and> headers_getlist
        (headers (handle_request example_app example_env (example_request ''/assets'') ''assets''))
        ''Cache-Control'' = [''no-cache'']
   \<and> headers_getlist
        (headers (handle_request example_app example_env (example_request ''/assets'') ''assets''))
        ''X-Content-Type-Options'' = [''nosniff'']
   \<and> headers_getlist
        (headers (handle_request example_app example_env (example_request ''/assets'') ''assets''))
        ''X-Frame-Options'' = [''DENY'']
   \<and> headers_getlist
        (headers (handle_request example_app example_env (example_request ''/assets'') ''assets''))
        ''X-XSS-Protection'' = [''1; mode=block'']"
proof -
  let ?req = "example_request ''/assets''"
  have st: "status_code (handle_request example_app example_env ?req ''assets'') = 404"
    by code_simp
  have cc: "headers_getlist (headers (handle_request example_app example_env ?req ''assets''))
              ''Cache-Control'' = [''no-cache'']"
    by code_simp
  show ?thesis
    using every_response_has_fixed_headers
            [where app = example_app and env = example_env and req = ?req
               and path = "''assets''"]
          st cc
    by simp
qed

lemmas stmt_defs = and_then_def py_print_def sys_exit_def discard_def
  try_except_KeyboardInterrupt_def subprocess_run_def os_system_def app_run_def run_script_def

lemma server_main_trace:
  "snd (run_script (server_main build_status listener)) =
     [Print (newline @ rocket @ '' IgniteX Test Server Starting...''),
      Print (package @ '' Building production bundle first...''),
      OsSystem ''npm run build'',
      Print (newline @ check_mark @ '' Build complete!''),
      Print (globe @ '' Server running at: http://localhost:5000''),
      Print (globe @ '' Network access: http://0.0.0.0:5000''),
      Print (newline @ ''Press CTRL+C to stop'' @ newline),
      AppRun ''0.0.0.0'' 5000 False True]"
  by (cases listener) (simp_all add: server_main_def stmt_defs)

lemma server_main_end:
  "fst (run_script (server_main build_status listener)) =
     (case listener of
        Returns u \<Rightarrow> Exit 0
      | Raises e \<Rightarrow> (if e = KeyboardInterrupt then Exit 0 else interpreter_end (Inl e)))"
  by (cases listener) (simp_all add: server_main_def stmt_defs)

lemma testing_main_returns:
  "run_script (testing_main (Returns returncode)) =
     (Exit 0,
      [Print (newline @ rule60),
       Print (rocket @ '' IGNITEX TEST SERVER''),
       Print rule60,
       Print (newline @ clipboard @ '' INSTRUCTIONS:''),
       Print ''   1. Server will start in 3 seconds'',
       Print (''   2. Look for: '' @ arrow @ ''  Local:   http://localhost:8080/''),
       Print ''   3. COPY that URL'',
       Print ''   4. PASTE it in your browser'',
       Print (newline @ light_bulb @ '' Press CTRL+C to stop server''),
       Print (rule60 @ newline),
       SubprocessRun [''npm'', ''run'', ''dev'']])"
  by (simp add: testing_main_def stmt_defs)

lemma testing_main_interrupted:
  "run_script (testing_main (Raises KeyboardInterrupt)) =
     (Exit 0,
      [Print (newline @ rule60),
       Print (rocket @ '' IGNITEX TEST SERVER''),
       Print rule60,
       Print (newline @ clipboard @ '' INSTRUCTIONS:''),
       Print ''   1. Server will start in 3 seconds'',
       Print (''   2. Look for: '' @ arrow @ ''  Local:   http://localhost:8080/''),
       Print ''   3. COPY that URL'',
       Print ''   4. PASTE it in your browser'',
       Print (newline @ light_bulb @ '' Press CTRL+C to stop server''),
       Print (rule60 @ newline),
       SubprocessRun [''npm'', ''run'', ''dev''],
       Print server_stopped_message])"
  by (simp add: testing_main_def stmt_defs)

lemma testing_main_other:
  "fst (run_script (testing_main (Raises OtherException))) = Uncaught OtherException"
  by (simp add: testing_main_def stmt_defs)


section \<open>The scripts\<close>

text \<open>
  Claim C6. Whatever exit status the build command returns and however the listener
  later ends, server.py performs the same events in the same order: its two
  announcements, the build command (\<^verbatim>\<open>os.system\<close> returns only when the command has
  ended), four more lines, and then the listener on all interfaces, port 5000. The
  status of the build occurs nowhere in the trace and changes neither it nor the way the
  process ends, so the listener is started after a failed build as well.
\<close>

theorem build_precedes_listener_and_status_is_ignored:
  "snd (run_script (server_main build_status listener)) =
     [Print (newline @ rocket @ '' IgniteX Test Server Starting...''),
      Print (package @ '' Building production bundle first...''),
      OsSystem ''npm run build'',
      Print (newline @ check_mark @ '' Build complete!''),
      Print (globe @ '' Server running at: http://localhost:5000''),
      Print (globe @ '' Network access: http://0.0.0.0:5000''),
      Print (newline @ ''Press CTRL+C to stop'' @ newline),
      AppRun ''0.0.0.0'' 5000 False True]
   \<and> run_script (server_main build_status listener) = run_script (server_main 0 listener)"
proof -
  have "fst (run_script (server_main build_status listener))
          = fst (run_script (server_main 0 listener))"
    by (simp only: server_main_end)
  moreover have "snd (run_script (server_main build_status listener))
          = snd (run_script (server_main 0 listener))"
    by (simp only: server_main_trace)
  ultimately have "run_script (server_main build_status listener)
          = run_script (server_main 0 listener)"
    by (rule prod_eqI)
  then show ?thesis
    using server_main_trace [of build_status listener] by simp
qed

theorem build_precedes_listener_and_status_is_ignored_witness:
  "AppRun ''0.0.0.0'' 5000 False True \<in> set (snd (run_script (server_main 256 (Returns ()))))
   \<and> run_script (server_main 256 (Returns ())) = run_script (server_main 0 (Returns ()))"
proof -
  note w = build_precedes_listener_and_status_is_ignored [of 256 "Returns ()"]
  have started: "AppRun ''0.0.0.0'' 5000 False True
                   \<in> set (snd (run_script (server_main 256 (Returns ()))))"
    unfolding conjunct1 [OF w] by simp
  have same: "run_script (server_main 256 (Returns ())) = run_script (server_main 0 (Returns ()))"
    by (rule conjunct2 [OF w])
  from started same show ?thesis by (rule conjI)
qed

text \<open>
  Claim C8. The launcher ends with exit status 0 when the child ends by itself, whatever
  its return code, and when the operator interrupts it; the return code changes neither
  the exit status nor anything the launcher prints, so it is neither inspected nor
  passed on.
\<close>

theorem dev_launcher_exit_status_zero:
  "fst (run_script (testing_main (Returns returncode))) = Exit 0
   \<and> fst (run_script (testing_main (Raises KeyboardInterrupt))) = Exit 0
   \<and> run_script (testing_main (Returns returncode)) = run_script (testing_main (Returns 0))"
  by (simp only: testing_main_returns testing_main_interrupted fst_conv simp_thms)

theorem dev_launcher_exit_status_zero_witness:
  "fst (run_script (testing_main (Returns 1))) = Exit 0
   \<and> fst (run_script (testing_main (Returns (- 2)))) = Exit 0"
proof -
  have one: "fst (run_script (testing_main (Returns 1))) = Exit 0"
    by (rule conjunct1 [OF dev_launcher_exit_status_zero [of 1]])
  have two: "fst (run_script (testing_main (Returns (- 2)))) = Exit 0"
    by (rule conjunct1 [OF dev_launcher_exit_status_zero [of "- 2"]])
  from one two show ?thesis by (rule conjI)
qed

text \<open>
  Claim C7, as the code has it. Interrupted while its child runs, the launcher prints its
  shutdown message last and ends with exit status 0. Interrupted while its listener
  runs, server.py ends with exit status 0 as well, whatever the status of the build was,
  but it prints no shutdown message: it has none. Starting the listener is the last
  event of the script, and its trace is the one of a run that is not interrupted.
\<close>

theorem interrupt_handling_of_the_two_scripts:
  "fst (run_script (testing_main (Raises KeyboardInterrupt))) = Exit 0
   \<and> last (snd (run_script (testing_main (Raises KeyboardInterrupt))))
       = Print server_stopped_message
   \<and> fst (run_script (server_main build_status (Raises KeyboardInterrupt))) = Exit 0
   \<and> last (snd (run_script (server_main build_status (Raises KeyboardInterrupt))))
       = AppRun ''0.0.0.0'' 5000 False True
   \<and> snd (run_script (server_main build_status (Raises KeyboardInterrupt)))
       = snd (run_script (server_main build_status (Returns ())))"
  by (simp add: testing_main_interrupted server_main_trace server_main_end)

theorem interrupt_handling_of_the_two_scripts_witness:
  "fst (run_script (server_main 1 (Raises KeyboardInterrupt))) = Exit 0
   \<and> last (snd (run_script (server_main 1 (Raises KeyboardInterrupt))))
       = AppRun ''0.0.0.0'' 5000 False True"
proof -
  note w = interrupt_handling_of_the_two_scripts [of 1]
  have ended: "fst (run_script (server_main 1 (Raises KeyboardInterrupt))) = Exit 0"
    by (rule conjunct1 [OF conjunct2 [OF conjunct2 [OF w]]])
  have silent: "last (snd (run_script (server_main 1 (Raises KeyboardInterrupt))))
                  = AppRun ''0.0.0.0'' 5000 False True"
    by (rule conjunct1 [OF conjunct2 [OF conjunct2 [OF conjunct2 [OF w]]]])
  from ended silent show ?thesis by (rule conjI)
qed

theorem server_prints_no_shutdown_message:
  "run_script (server_main 0 (Raises KeyboardInterrupt)) =
     (Exit 0,
      [Print (newline @ rocket @ '' IgniteX Test Server Starting...''),
       Print (package @ '' Building production bundle first...''),
       OsSystem ''npm run build'',
       Print (newline @ check_mark @ '' Build complete!''),
       Print (globe @ '' Server running at: http://localhost:5000''),
       Print (globe @ '' Network access: http://0.0.0.0:5000''),
       Print (newline @ ''Press CTRL+C to stop'' @ newline),
       AppRun ''0.0.0.0'' 5000 False True])
   \<and> last (snd (run_script (server_main 0 (Raises KeyboardInterrupt))))
     = AppRun ''0.0.0.0'' 5000 False True"
proof -
  have "fst (run_script (server_main 0 (Raises KeyboardInterrupt))) = Exit 0"
    by (simp add: server_main_end)
  then have "run_script (server_main 0 (Raises KeyboardInterrupt)) =
               (Exit 0, snd (run_script (server_main 0 (Raises KeyboardInterrupt))))"
    by (metis prod.collapse)
  then show ?thesis
    by (simp add: server_main_trace)
qed

section \<open>Properties of the path functions\<close>

lemma startswith_append: "startswith s p \<Longrightarrow> startswith (s @ t) p"
  by (auto simp: startswith_iff)

lemma join_keeps_second_part: "\<exists>pre. os_path_join a b = pre @ b"
proof (cases "startswith b ''/''")
  case True
  then have "os_path_join a b = [] @ b" by (simp add: os_path_join_def)
  then show ?thesis by blast
next
  case False
  then have "os_path_join a b = a @ b \<or> os_path_join a b = (a @ ''/'') @ b"
    by (simp add: os_path_join_def)
  then show ?thesis by blast
qed

lemma join_absolute_second: "os_path_isabs b \<Longrightarrow> os_path_join a b = b"
  by (simp add: os_path_join_def os_path_isabs_def)

lemma join_absolute_first:
  "os_path_isabs a \<Longrightarrow> os_path_isabs (os_path_join a b)"
  by (auto simp: os_path_join_def os_path_isabs_def intro: startswith_append)

lemma static_folder_absolute:
  "os_path_isabs (root_path app) \<Longrightarrow> os_path_isabs (static_folder app)"
  by (simp add: static_folder_def join_absolute_first)

lemma safe_join_absolute:
  assumes "os_path_isabs directory" and "safe_join directory filename = Some q"
  shows "os_path_isabs q"
proof -
  from assms(1) have "directory \<noteq> []" by (auto simp: os_path_isabs_def)
  with assms(2) obtain f where "q = os_path_join directory f"
    by (auto simp: safe_join_def Let_def split: if_splits)
  with assms(1) show ?thesis by (simp add: join_absolute_first)
qed


lemma safe_join_normal_form:
  assumes "directory \<noteq> []" and "normpath path = path"
    and "safe_join directory path = Some q"
  shows "q = os_path_join directory path"
  using assms by (auto simp: safe_join_def Let_def split: if_splits)

section \<open>Normalising a path in a tree without symbolic links\<close>

text \<open>
  In a tree without symbolic links a relative path that resolves and its normal form
  resolve to the same place: \<open>normpath\<close> drops the components that stay and cancels a
  name against the \<^verbatim>\<open>..\<close> that follows it. So the path \<open>safe_join\<close> returns is the
  same file or directory as \<^verbatim>\<open>join(directory, path)\<close>, whenever the latter exists.
\<close>

lemma split_sep_not_empty: "split_sep s \<noteq> []"
  by (induction s) (auto split: list.splits)

lemma split_sep_no_sep: "w \<in> set (split_sep s) \<Longrightarrow> CHR ''/'' \<notin> set w"
proof (induction s arbitrary: w)
  case Nil
  then show ?case by simp
next
  case (Cons c s)
  show ?case
  proof (cases "c = CHR ''/''")
    case True
    with Cons show ?thesis by auto
  next
    case False
    obtain v vs where vs: "split_sep s = v # vs"
      using split_sep_not_empty [of s] by (cases "split_sep s") auto
    with False Cons.prems have "w = c # v \<or> w \<in> set vs" by auto
    then show ?thesis
    proof
      assume "w = c # v"
      moreover have "CHR ''/'' \<notin> set v" using Cons.IH [of v] vs by simp
      ultimately show ?thesis using False by auto
    next
      assume "w \<in> set vs"
      then show ?thesis using Cons.IH [of w] vs by simp
    qed
  qed
qed

lemma split_sep_plain: "CHR ''/'' \<notin> set w \<Longrightarrow> split_sep w = [w]"
  by (induction w) auto

lemma split_sep_append: "split_sep (a @ CHR ''/'' # b) = split_sep a @ split_sep b"
proof (induction a)
  case Nil
  then show ?case by simp
next
  case (Cons c a)
  obtain v vs where "split_sep a = v # vs"
    using split_sep_not_empty [of a] by (cases "split_sep a") auto
  with Cons show ?case by simp
qed

lemma split_join_sep:
  "ws \<noteq> [] \<Longrightarrow> \<forall>w\<in>set ws. CHR ''/'' \<notin> set w \<Longrightarrow> split_sep (join_sep ws) = ws"
proof (induction ws rule: join_sep.induct)
  case 1
  then show ?case by simp
next
  case (2 w)
  then show ?case by (simp add: split_sep_plain)
next
  case (3 w v ws)
  then have "split_sep (join_sep (v # ws)) = v # ws" by simp
  with 3 show ?case by (simp add: split_sep_append split_sep_plain)
qed

lemma join_sep_empty: "join_sep ws = [] \<Longrightarrow> ws = [] \<or> hd ws = []"
  by (induction ws rule: join_sep.induct) auto

lemma walk_append:
  "walk root cur (xs @ ys) =
     (case walk root cur xs of None \<Rightarrow> None | Some loc \<Rightarrow> walk root loc ys)"
  by (induction xs arbitrary: cur) auto

lemma walk_after_prefix:
  assumes "\<And>loc. walk root loc xs = Some r \<Longrightarrow> walk root loc ys = Some r"
    and "walk root cur (acc @ xs) = Some r"
  shows "walk root cur (acc @ ys) = Some r"
  using assms by (auto simp: walk_append split: option.splits)

lemma walk_skip:
  "c = [] \<or> c = ''.'' \<Longrightarrow> walk root cur (c # cs) = Some r \<Longrightarrow> walk root cur cs = Some r"
  by (cases cs) (auto split: if_splits)

lemma walk_name_then_parent:
  "n \<noteq> [] \<Longrightarrow> n \<noteq> ''.'' \<Longrightarrow> n \<noteq> ''..'' \<Longrightarrow>
   walk root cur (n # ''..'' # cs) = Some r \<Longrightarrow> walk root cur cs = Some r"
  by (auto split: if_splits)

lemma normpath_loop_components:
  "set (normpath_loop i comps acc) \<subseteq> set acc \<union> (set comps - {[], ''.''})"
proof (induction comps arbitrary: acc)
  case Nil
  then show ?case by simp
next
  case (Cons part comps)
  let ?rest = "set comps - {[], ''.''}"
  show ?case
  proof (cases "part = [] \<or> part = ''.''")
    case True
    then have "normpath_loop i (part # comps) acc = normpath_loop i comps acc" by auto
    with Cons [of acc] show ?thesis by auto
  next
    case False
    show ?thesis
    proof (cases "part \<noteq> ''..'' \<or> (i = 0 \<and> acc = []) \<or> (acc \<noteq> [] \<and> last acc = ''..'')")
      case True
      with False
      have "normpath_loop i (part # comps) acc = normpath_loop i comps (acc @ [part])"
        by simp
      moreover
      have "set (normpath_loop i comps (acc @ [part])) \<subseteq> set (acc @ [part]) \<union> ?rest"
        by (rule Cons)
      ultimately show ?thesis using False by auto
    next
      case no_push: False
      show ?thesis
      proof (cases "acc \<noteq> []")
        case True
        with False no_push
        have "normpath_loop i (part # comps) acc = normpath_loop i comps (butlast acc)"
          by simp
        moreover
        have "set (normpath_loop i comps (butlast acc)) \<subseteq> set (butlast acc) \<union> ?rest"
          by (rule Cons)
        moreover have "set (butlast acc) \<subseteq> set acc" by (auto dest: in_set_butlastD)
        ultimately show ?thesis by auto
      next
        case stay: False
        with False no_push
        have "normpath_loop i (part # comps) acc = normpath_loop i comps acc" by simp
        with Cons [of acc] show ?thesis by auto
      qed
    qed
  qed
qed

lemma walk_normpath_loop:
  assumes "\<forall>w\<in>set acc. w \<noteq> [] \<and> w \<noteq> ''.''"
    and "walk root cur (acc @ comps) = Some r"
  shows "walk root cur (normpath_loop 0 comps acc) = Some r"
  using assms
proof (induction comps arbitrary: acc)
  case Nil
  then show ?case by simp
next
  case (Cons part comps)
  show ?case
  proof (cases "part = [] \<or> part = ''.''")
    case True
    have "walk root cur (acc @ comps) = Some r"
      using walk_after_prefix [OF _ Cons.prems(2)] walk_skip [OF True] by blast
    with True Cons.IH [OF Cons.prems(1)] show ?thesis by simp
  next
    case False
    show ?thesis
    proof (cases "part \<noteq> ''..'' \<or> acc = [] \<or> last acc = ''..''")
      case True
      have "\<forall>w\<in>set (acc @ [part]). w \<noteq> [] \<and> w \<noteq> ''.''"
        using False Cons.prems(1) by auto
      moreover have "walk root cur ((acc @ [part]) @ comps) = Some r"
        using Cons.prems(2) by simp
      ultimately have "walk root cur (normpath_loop 0 comps (acc @ [part])) = Some r"
        by (rule Cons.IH)
      with False True show ?thesis by auto
    next
      case pop: False
      then have part: "part = ''..''" and ne: "acc \<noteq> []" and l: "last acc \<noteq> ''..''"
        by auto
      from ne have acc: "acc = butlast acc @ [last acc]" by simp
      from ne Cons.prems(1) have n: "last acc \<noteq> []" "last acc \<noteq> ''.''" by auto
      have "walk root cur (butlast acc @ (last acc # ''..'' # comps)) = Some r"
        using Cons.prems(2) acc part by (metis append_Cons append_Nil append_assoc)
      then have "walk root cur (butlast acc @ comps) = Some r"
        using walk_after_prefix walk_name_then_parent [OF n l] by blast
      moreover have "\<forall>w\<in>set (butlast acc). w \<noteq> [] \<and> w \<noteq> ''.''"
        using Cons.prems(1) by (auto dest: in_set_butlastD)
      ultimately have "walk root cur (normpath_loop 0 comps (butlast acc)) = Some r"
        using Cons.IH by blast
      with False part ne l show ?thesis by simp
    qed
  qed
qed

lemma normpath_keeps_absolute: "startswith p ''/'' \<Longrightarrow> startswith (normpath p) ''/''"
  by (cases p) (auto simp: normpath_def Let_def numeral_2_eq_2)

lemma walk_normpath:
  assumes "p \<noteq> []" and "\<not> startswith p ''/''"
    and "walk root cur (split_sep p) = Some r"
  shows "walk root cur (split_sep (normpath p)) = Some r"
proof -
  define comps where "comps = normpath_loop 0 (split_sep p) []"
  have w: "walk root cur comps = Some r"
    unfolding comps_def using walk_normpath_loop [of "[]" root cur "split_sep p" r] assms(3)
    by simp
  have sub: "set comps \<subseteq> set (split_sep p) - {[], ''.''}"
    unfolding comps_def using normpath_loop_components [of 0 "split_sep p" "[]"] by simp
  have n: "normpath p = (if join_sep comps = [] then ''.'' else join_sep comps)"
    using assms(1,2) by (simp add: normpath_def Let_def comps_def)
  show ?thesis
  proof (cases "join_sep comps = []")
    case True
    have "comps = []"
    proof (rule ccontr)
      assume "comps \<noteq> []"
      with join_sep_empty [OF True] have "[] \<in> set comps" by (cases comps) auto
      with sub show False by auto
    qed
    with w have r: "r = cur" by simp
    obtain c cs where "split_sep p = c # cs"
      using split_sep_not_empty [of p] by (cases "split_sep p") auto
    with assms(3) have "is_dir (node_at root cur)" by (auto split: if_splits)
    with True n r show ?thesis by simp
  next
    case False
    then have "comps \<noteq> []" by auto
    moreover have "\<forall>w\<in>set comps. CHR ''/'' \<notin> set w"
      using sub split_sep_no_sep by blast
    ultimately have "split_sep (join_sep comps) = comps" by (rule split_join_sep)
    with False n w show ?thesis by simp
  qed
qed

lemma split_sep_join:
  assumes "a \<noteq> []" and "\<not> startswith b ''/''"
  shows "split_sep (os_path_join a b)
         = split_sep (if endswith_sep a then butlast a else a) @ split_sep b"
proof (cases "endswith_sep a")
  case True
  then have "butlast a @ [CHR ''/''] = a"
    using append_butlast_last_id [of a] by (simp add: endswith_sep_def)
  then have "a @ b = butlast a @ CHR ''/'' # b" by (metis append_Cons append_Nil append_assoc)
  then have "split_sep (a @ b) = split_sep (butlast a) @ split_sep b"
    by (simp only: split_sep_append)
  moreover from True assms have "os_path_join a b = a @ b" by (simp add: os_path_join_def)
  ultimately show ?thesis using True by simp
next
  case False
  with assms show ?thesis by (simp add: os_path_join_def split_sep_append)
qed

lemma resolve_safe_join:
  assumes "os_path_isabs directory" and "safe_join directory path = Some q"
    and "resolve root cwd (os_path_join directory path) = Some loc"
  shows "resolve root cwd q = Some loc"
proof (cases "path = []")
  case True
  with assms show ?thesis by (auto simp: safe_join_def Let_def os_path_isabs_def split: if_splits)
next
  case False
  from assms(1) have d: "directory \<noteq> []" by (auto simp: os_path_isabs_def)
  from assms(2) False d have rel: "\<not> startswith (normpath path) ''/''"
    and q: "q = os_path_join directory (normpath path)"
    by (auto simp: safe_join_def Let_def split: if_splits)
  from rel have relp: "\<not> startswith path ''/''" using normpath_keeps_absolute by blast
  let ?A = "split_sep (if endswith_sep directory then butlast directory else directory)"
  have abs1: "startswith (os_path_join directory path) ''/''"
    and abs2: "startswith q ''/''"
    using assms(1) q join_absolute_first by (auto simp: os_path_isabs_def)
  from abs1 abs2 have ne: "os_path_join directory path \<noteq> []" "q \<noteq> []" by auto
  from assms(3) abs1 ne have "walk root [] (?A @ split_sep path) = Some loc"
    by (simp add: resolve_def split_sep_join [OF d relp])
  then have "walk root [] (?A @ split_sep (normpath path)) = Some loc"
    using walk_after_prefix walk_normpath [OF False relp] by blast
  with abs2 ne q show ?thesis
    by (simp add: resolve_def split_sep_join [OF d rel])
qed

lemma tree_stat_safe_join:
  assumes "os_path_isabs directory" and "safe_join directory path = Some q"
    and "tree_stat root cwd (os_path_join directory path) = Some x"
  shows "tree_stat root cwd q = Some x"
proof -
  from assms(3) obtain loc where "resolve root cwd (os_path_join directory path) = Some loc"
    by (auto simp: tree_stat_def split: option.splits)
  moreover from this have "resolve root cwd q = Some loc"
    using resolve_safe_join [OF assms(1,2)] by blast
  ultimately show ?thesis using assms(3) by (simp add: tree_stat_def)
qed

section \<open>Properties of the library calls\<close>

lemma send_file_regular:
  assumes "os_path_isabs q" and "os_stat env q = Some (RegularFile bytes)"
    and "\<not> is_conditional req"
  shows "send_file app env req q =
           Inr \<lparr>status_code = 200,
                headers = headers_set (file_headers env q) ''Content-Type''
                            (content_type_of env q),
                data = bytes\<rparr>"
  using assms by (simp add: send_file_def join_absolute_second)

lemma send_from_directory_regular:
  assumes "os_path_isabs (root_path app)" and "os_path_isabs directory"
    and "safe_join directory path = Some q" and "os_stat env q = Some (RegularFile bytes)"
    and "\<not> is_conditional req"
  shows "send_from_directory app env req directory path =
           Inr \<lparr>status_code = 200,
                headers = headers_set (file_headers env q) ''Content-Type''
                            (content_type_of env q),
                data = bytes\<rparr>"
proof -
  have q: "os_path_isabs q" using assms(2,3) by (rule safe_join_absolute)
  then have "os_path_join (root_path app) q = q" by (rule join_absolute_second)
  with assms(3,4,5) q show ?thesis
    by (simp add: send_from_directory_def os_path_isfile_def send_file_regular)
qed



lemma content_type_after_set:
  "headers_get (headers_set hs ''Content-Type'' v) ''Content-Type'' d = v"
  by (simp add: headers_get_def lookup_set_same)

lemma handle_request_of_response:
  assumes "serve app env req path = Inr r"
  shows "status_code (handle_request app env req path) = status_code r"
    and "data (handle_request app env req path) = data r"
    and "headers_get (headers (handle_request app env req path)) ''Content-Type'' d
           = headers_get (headers r) ''Content-Type'' d"
  using assms
  by (simp_all add: handle_request_def finalize_request_def add_header_content_type)


lemma dispatch_to_serve:
  assumes "req_method req = ''GET'' \<or> req_method req = ''HEAD''"
    and "match_url (req_path req) = ServeView path"
  shows "full_dispatch_request app env req = handle_request app env req path"
  using assms
  by (auto simp: full_dispatch_request_def handle_request_def dispatch_request_def)

lemma response_body_of_get:
  "req_method req = ''GET'' \<Longrightarrow> status_code r = 200 \<Longrightarrow> response_body req r = data r"
  by (simp add: response_body_def)


section \<open>The request handler\<close>

text \<open>
  Claim C1, as the code has it. Let the application's root path be absolute (the
  framework makes it so). Let the request be a GET without any of the headers that make
  the answer conditional (Range, If-Range, If-Modified-Since, If-None-Match, If-Match),
  and let the URL map hand it to \<open>serve\<close> with a non-empty path (so its URL is not under
  \<^verbatim>\<open>/dist/\<close>, which the static route answers) for which
  \<^verbatim>\<open>join(static_folder, path)\<close> exists. If \<open>safe_join\<close> accepts the path (its normal
  form is neither absolute, nor \<^verbatim>\<open>..\<close>, nor starts with \<^verbatim>\<open>../\<close>) and the joined
  path \<open>q\<close>, the static folder followed by the normal form of the request path, is a regular
  file, then the response has status 200, that file's bytes as its body and the
  Content-Type inferred from its name. For a request path already in normal form \<open>q\<close> is
  \<^verbatim>\<open>join(static_folder, path)\<close> itself; and when the filesystem is a tree without
  symbolic links, \<open>q\<close> and \<^verbatim>\<open>join(static_folder, path)\<close> are the same file, so the
  bytes served are those of \<^verbatim>\<open>join(static_folder, path)\<close>.
\<close>

theorem existing_file_is_served:
  assumes "os_path_isabs (root_path app)"
    and "req_method req = ''GET''"
    and "\<not> is_conditional req"
    and "match_url (req_path req) = ServeView path"
    and "path \<noteq> []"
    and "os_path_exists env (os_path_join (static_folder app) path)"
    and "safe_join (static_folder app) path = Some q"
    and "os_stat env q = Some (RegularFile bytes)"
  shows "status_code (full_dispatch_request app env req) = 200
         \<and> data (full_dispatch_request app env req) = bytes
         \<and> response_body req (full_dispatch_request app env req) = bytes
         \<and> headers_get (headers (full_dispatch_request app env req)) ''Content-Type'' []
             = content_type_of env q
         \<and> (normpath path = path \<longrightarrow> q = os_path_join (static_folder app) path)
         \<and> (os_stat env = tree_stat root cwd \<longrightarrow>
              os_stat env (os_path_join (static_folder app) path) = Some (RegularFile bytes))"
proof -
  have sf: "os_path_isabs (static_folder app)"
    using assms(1) by (rule static_folder_absolute)
  have guard: "serve_guard app env path"
    using assms(5,6) by (simp add: serve_guard_def)
  have same: "os_stat env (os_path_join (static_folder app) path) = Some (RegularFile bytes)"
    if tree: "os_stat env = tree_stat root cwd"
  proof -
    from assms(6) tree obtain x
      where x: "tree_stat root cwd (os_path_join (static_folder app) path) = Some x"
      by (auto simp: os_path_exists_def)
    then have "tree_stat root cwd q = Some x"
      using tree_stat_safe_join [OF sf assms(7)] by blast
    with assms(8) tree x show ?thesis by simp
  qed
  have routed: "full_dispatch_request app env req = handle_request app env req path"
    using assms(2,4) by (simp add: dispatch_to_serve)
  have "serve app env req path =
          Inr \<lparr>status_code = 200,
               headers = headers_set (file_headers env q) ''Content-Type''
                           (content_type_of env q),
               data = bytes\<rparr>"
    using guard send_from_directory_regular [OF assms(1) sf assms(7,8,3)]
    by (simp add: serve_def)
  note served = handle_request_of_response [OF this]
  have nonempty: "static_folder app \<noteq> []"
    using sf by (auto simp: os_path_isabs_def)
  have normal: "normpath path = path \<longrightarrow> q = os_path_join (static_folder app) path"
    using safe_join_normal_form [OF nonempty _ assms(7)] by blast
  have body: "response_body req (handle_request app env req path) = bytes"
    using served(1,2) assms(2) by (simp add: response_body_of_get)
  from served body normal same show ?thesis
    unfolding routed by (simp add: content_type_after_set)
qed

theorem existing_file_is_served_witness:
  "status_code (full_dispatch_request example_app example_env (example_request ''/style.css''))
     = 200
   \<and> response_body (example_request ''/style.css'')
        (full_dispatch_request example_app example_env (example_request ''/style.css''))
     = ''body { margin: 0 }''
   \<and> headers_get
        (headers (full_dispatch_request example_app example_env (example_request ''/style.css'')))
        ''Content-Type'' [] = ''text/css; charset=utf-8''
   \<and> data (full_dispatch_request example_app example_env (example_request ''/assets/./app.js''))
     = ''render()''
   \<and> os_stat example_env (os_path_join (static_folder example_app) ''assets/./app.js'')
     = Some (RegularFile ''render()'')"
proof -
  let ?r1 = "example_request ''/style.css''"
  let ?r2 = "example_request ''/assets/./app.js''"
  have a1: "os_path_isabs (root_path example_app)" by code_simp
  have m1: "req_method ?r1 = ''GET''" by code_simp
  have c1: "\<not> is_conditional ?r1" by code_simp
  have u1: "match_url (req_path ?r1) = ServeView ''style.css''" by code_simp
  have n1: "''style.css'' \<noteq> []" by simp
  have e1: "os_path_exists example_env (os_path_join (static_folder example_app) ''style.css'')"
    by code_simp
  have s1: "safe_join (static_folder example_app) ''style.css'' = Some ''/app/dist/style.css''"
    by code_simp
  have f1: "os_stat example_env ''/app/dist/style.css'' = Some (RegularFile ''body { margin: 0 }'')"
    by code_simp
  have ct: "content_type_of example_env ''/app/dist/style.css'' = ''text/css; charset=utf-8''"
    by code_simp
  have m2: "req_method ?r2 = ''GET''" by code_simp
  have c2: "\<not> is_conditional ?r2" by code_simp
  have u2: "match_url (req_path ?r2) = ServeView ''assets/./app.js''" by code_simp
  have n2: "''assets/./app.js'' \<noteq> []" by simp
  have e2: "os_path_exists example_env
              (os_path_join (static_folder example_app) ''assets/./app.js'')"
    by code_simp
  have s2: "safe_join (static_folder example_app) ''assets/./app.js''
              = Some ''/app/dist/assets/app.js''"
    by code_simp
  have f2: "os_stat example_env ''/app/dist/assets/app.js'' = Some (RegularFile ''render()'')"
    by code_simp
  have tree: "os_stat example_env = tree_stat example_tree [''app'']"
    by (simp add: example_env_def)
  show ?thesis
    using existing_file_is_served [OF a1 m1 c1 u1 n1 e1 s1 f1] ct
          existing_file_is_served
            [OF a1 m2 c2 u2 n2 e2 s2 f2, where root = example_tree and cwd = "[''app'']"]
          tree
    by simp
qed

theorem existing_path_not_served_counterexample:
  "os_stat example_env (os_path_join (static_folder example_app) ''../server.py'')
     = Some (RegularFile ''from flask import Flask'')
   \<and> status_code
        (full_dispatch_request example_app example_env (example_request ''/../server.py''))
     = 404
   \<and> data (full_dispatch_request example_app example_env (example_request ''/../server.py''))
     = ''<h1>error</h1>''
   \<and> os_stat example_env (os_path_join (static_folder example_app) ''assets'')
     = Some Directory
   \<and> status_code (full_dispatch_request example_app example_env (example_request ''/assets''))
     = 404"
  by code_simp

text \<open>
  Claim C2, as the code has it. Let the application's root path be absolute and let
  \<^verbatim>\<open>index.html\<close> in the static folder be a regular file. Let the request be a GET
  without any of the headers that make the answer conditional, and let the URL map hand
  it to \<open>serve\<close> (its URL is not under \<^verbatim>\<open>/dist/\<close>). If the path is empty, or if
  \<^verbatim>\<open>join(static_folder, path)\<close> does not exist, the response has status 200 (it is no
  redirect), the bytes of \<^verbatim>\<open>index.html\<close> as its body and the Content-Type inferred
  from its name.
\<close>

theorem missing_path_falls_back_to_entry_document:
  assumes "os_path_isabs (root_path app)"
    and "req_method req = ''GET''"
    and "\<not> is_conditional req"
    and "match_url (req_path req) = ServeView path"
    and "path = [] \<or> os_stat env (os_path_join (static_folder app) path) = None"
    and "os_stat env (os_path_join (static_folder app) ''index.html'')
           = Some (RegularFile bytes)"
  shows "status_code (full_dispatch_request app env req) = 200
         \<and> data (full_dispatch_request app env req) = bytes
         \<and> response_body req (full_dispatch_request app env req) = bytes
         \<and> headers_get (headers (full_dispatch_request app env req)) ''Content-Type'' []
             = content_type_of env (os_path_join (static_folder app) ''index.html'')"
proof -
  have "os_path_isabs (os_path_join (static_folder app) ''index.html'')"
    using assms(1) by (simp add: static_folder_absolute join_absolute_first)
  note sent = send_file_regular [OF this assms(6,3), of app]
  have routed: "full_dispatch_request app env req = handle_request app env req path"
    using assms(2,4) by (simp add: dispatch_to_serve)
  have "\<not> serve_guard app env path"
    using assms(5) by (auto simp: serve_guard_def os_path_exists_def)
  then have "serve app env req path =
          Inr \<lparr>status_code = 200,
               headers = headers_set
                           (file_headers env (os_path_join (static_folder app) ''index.html''))
                           ''Content-Type''
                           (content_type_of env (os_path_join (static_folder app) ''index.html'')),
               data = bytes\<rparr>"
    using sent by (simp add: serve_def)
  note served = handle_request_of_response [OF this]
  have body: "response_body req (handle_request app env req path) = bytes"
    using served(1,2) assms(2) by (simp add: response_body_of_get)
  from served body show ?thesis
    unfolding routed by (simp add: content_type_after_set)
qed

theorem missing_path_falls_back_to_entry_document_witness:
  "status_code
     (full_dispatch_request example_app example_env (example_request ''/nonexistent/route''))
     = 200
   \<and> response_body (example_request ''/nonexistent/route'')
        (full_dispatch_request example_app example_env (example_request ''/nonexistent/route''))
     = ''<div id=root></div>''
   \<and> data (full_dispatch_request example_app example_env (example_request ''/''))
     = ''<div id=root></div>''"
proof -
  let ?r1 = "example_request ''/nonexistent/route''"
  let ?r2 = "example_request ''/''"
  have a1: "os_path_isabs (root_path example_app)" by code_simp
  have m1: "req_method ?r1 = ''GET''" by code_simp
  have c1: "\<not> is_conditional ?r1" by code_simp
  have u1: "match_url (req_path ?r1) = ServeView ''nonexistent/route''" by code_simp
  have x1: "os_stat example_env (os_path_join (static_folder example_app) ''nonexistent/route'')
              = None"
    by code_simp
  have m2: "req_method ?r2 = ''GET''" by code_simp
  have c2: "\<not> is_conditional ?r2" by code_simp
  have u2: "match_url (req_path ?r2) = ServeView []" by code_simp
  have ix: "os_stat example_env (os_path_join (static_folder example_app) ''index.html'')
              = Some (RegularFile ''<div id=root></div>'')"
    by code_simp
  show ?thesis
    using missing_path_falls_back_to_entry_document [OF a1 m1 c1 u1 disjI2 ix, OF x1]
          missing_path_falls_back_to_entry_document [OF a1 m2 c2 u2 disjI1 ix, OF refl]
    by simp
qed

theorem directory_gets_no_entry_document_counterexample:
  "os_stat example_env (os_path_join (static_folder example_app) ''assets'') = Some Directory
   \<and> os_stat example_env (os_path_join (static_folder example_app) ''index.html'')
       = Some (RegularFile ''<div id=root></div>'')
   \<and> status_code (full_dispatch_request example_app example_env (example_request ''/assets''))
       = 404
   \<and> data (full_dispatch_request example_app example_env (example_request ''/assets''))
       = ''<h1>error</h1>''
   \<and> os_stat example_env (os_path_join (static_folder example_app) ''dist/nope'') = None
   \<and> os_stat example_env (os_path_join (static_folder example_app) ''nope'') = None
   \<and> status_code (full_dispatch_request example_app example_env (example_request ''/dist/nope''))
       = 404"
  by code_simp

text \<open>
  Claim C5. The guard of \<open>serve\<close> hands the joined path to the existence test as it is:
  the joined path ends with the request path character for character, and the guard is
  true exactly when the request path is non-empty and that joined path exists. In the
  concrete deployment the request path \<^verbatim>\<open>../server.py\<close> has a parent-directory segment,
  the static folder resolves to \<^verbatim>\<open>/app/dist\<close>, the joined path resolves to the regular
  file \<^verbatim>\<open>/app/server.py\<close> outside it, and the guard is true.
\<close>

theorem guard_accepts_parent_directory_segments:
  "(\<exists>pre. os_path_join (static_folder app) path = pre @ path)
   \<and> serve_guard app env path
       = (path \<noteq> [] \<and> os_stat env (os_path_join (static_folder app) path) \<noteq> None)
   \<and> ''..'' \<in> set (split_sep ''../server.py'')
   \<and> resolve example_tree [''app''] (static_folder example_app) = Some [''app'', ''dist'']
   \<and> resolve example_tree [''app''] (os_path_join (static_folder example_app) ''../server.py'')
       = Some [''app'', ''server.py'']
   \<and> os_stat example_env (os_path_join (static_folder example_app) ''../server.py'')
       = Some (RegularFile ''from flask import Flask'')
   \<and> serve_guard example_app example_env ''../server.py''"
proof -
  have general: "\<exists>pre. os_path_join (static_folder app) path = pre @ path"
    by (rule join_keeps_second_part)
  have guard: "serve_guard app env path
       = (path \<noteq> [] \<and> os_stat env (os_path_join (static_folder app) path) \<noteq> None)"
    by (simp add: serve_guard_def os_path_exists_def)
  have concrete: "''..'' \<in> set (split_sep ''../server.py'')
   \<and> resolve example_tree [''app''] (static_folder example_app) = Some [''app'', ''dist'']
   \<and> resolve example_tree [''app''] (os_path_join (static_folder example_app) ''../server.py'')
       = Some [''app'', ''server.py'']
   \<and> os_stat example_env (os_path_join (static_folder example_app) ''../server.py'')
       = Some (RegularFile ''from flask import Flask'')
   \<and> serve_guard example_app example_env ''../server.py''"
    by code_simp
  from general guard concrete show ?thesis by blast
qed

theorem guard_accepts_parent_directory_segments_witness:
  "os_path_join (static_folder example_app) ''assets/../../server.py''
     = ''/app/dist/assets/../../server.py''
   \<and> serve_guard example_app example_env ''assets/../../server.py''"
proof -
  have joined: "os_path_join (static_folder example_app) ''assets/../../server.py''
                  = ''/app/dist/assets/../../server.py''"
    by code_simp
  have found: "os_stat example_env ''/app/dist/assets/../../server.py'' \<noteq> None"
    by code_simp
  have "serve_guard example_app example_env ''assets/../../server.py''"
    using guard_accepts_parent_directory_segments
            [of example_app "''assets/../../server.py''" example_env]
          joined found
    by simp
  with joined show ?thesis by (rule conjI)
qed



end
